theory Spec2Isabelle
  imports Complex_Main
begin

section \<open>Data model\<close>

text \<open>
  The three analysis scripts read terminal-state tables (one row per simulation seed) and
  time-series tables of two monetary regimes. A metric cell read from a CSV file is a
  float holding a number; it is modelled as a \<^typ>\<open>real\<close>, and the special values
  of floats are not modelled. Arithmetic on cells is exact except where a float is
  truncated to an integer: there the rounding of each float operation is written out
  (\<open>round64\<close> below), because a rounding error can move the integer. The one column
  the scripts treat as optional is \<open>EffectiveBDP\<close>: it may be absent from the row
  (\<open>None\<close>), present but NaN (\<open>Some None\<close>) or present with a value.
\<close>

datatype regime = pln | eur

datatype py_error = AttributeError | KeyError | ZeroDivisionError

type_synonym cell = "real option"

record terminal_row =
  Unemployment :: real
  MarketWage :: real
  PriceLevel :: real
  TotalAdoption :: real
  Inflation :: real
  ExRate :: real
  RefRate :: real
  NPL :: real
  EffectiveBDP :: "cell option"

text \<open>
  The results tree on disk: a regime and a sweep level name a terminal-state file, which
  is either missing (\<open>None\<close>, the loader raises FileNotFoundError) or holds its rows.
\<close>

type_synonym results = "regime \<Rightarrow> int \<Rightarrow> terminal_row list option"

definition BDP_LEVELS :: "int list" where
  "BDP_LEVELS = map (\<lambda>k. 250 * k) [0..20]"

section \<open>regime\_welfare.py: welfare derivation\<close>

definition POPULATION :: int where
  "POPULATION = 100000"

definition MPC :: real where
  "MPC = 0.82"

definition load_term :: "results \<Rightarrow> regime \<Rightarrow> int \<Rightarrow> terminal_row list option" where
  "load_term fs regime bdp = fs regime bdp"

text \<open>
  Double precision (binary64): a float operation returns the double nearest to its exact
  result, a tie going to the even significand. \<open>find_exp n a\<close> searches downwards
  for the binary exponent of \<open>a\<close> (at least -1022, the exponent of the subnormal
  numbers), \<open>round64\<close> rounds to 53 significant bits at that exponent. Overflow to
  infinity is not modelled. A value written in decimal stands for the double nearest to
  it, as a Python literal or a parsed cell does.
\<close>

definition round_half_even :: "real \<Rightarrow> int" where
  "round_half_even y =
     (let n = \<lfloor>y\<rfloor>; f = y - real_of_int n
      in if f < 1 / 2 then n else if 1 / 2 < f then n + 1 else if even n then n else n + 1)"

fun find_exp :: "nat \<Rightarrow> real \<Rightarrow> int" where
  "find_exp 0 a = - 1022"
| "find_exp (Suc n) a = (if 2 powi (int n - 1022) \<le> a then int n - 1022 else find_exp n a)"

definition round64 :: "real \<Rightarrow> real" where
  "round64 x =
     (if x = 0 then 0
      else (let e = find_exp 2046 \<bar>x\<bar>; q = 2 powi (e - 52)
            in real_of_int (round_half_even (x / q)) * q))"

definition fsub :: "real \<Rightarrow> real \<Rightarrow> real" where
  "fsub a b = round64 (a - b)"

definition fmul :: "real \<Rightarrow> real \<Rightarrow> real" where
  "fmul a b = round64 (a * b)"

text \<open>Python's \<open>int(x)\<close> on a float: the fractional part is dropped.\<close>

definition py_int :: "real \<Rightarrow> int" where
  "py_int x = (if 0 \<le> x then \<lfloor>x\<rfloor> else \<lceil>x\<rceil>)"

text \<open>A division whose divisor is zero is kept apart as an error value.\<close>

definition fdiv :: "real \<Rightarrow> real \<Rightarrow> py_error + real" where
  "fdiv a b = (if b = 0 then Inl ZeroDivisionError else Inr (a / b))"

text \<open>\<open>r.get('EffectiveBDP', default)\<close> and \<open>pd.isna\<close>.\<close>

definition row_get :: "cell option \<Rightarrow> cell \<Rightarrow> cell" where
  "row_get c dflt = (case c of None \<Rightarrow> dflt | Some v \<Rightarrow> v)"

definition isna :: "cell \<Rightarrow> bool" where
  "isna c = (c = None)"

text \<open>
  \<open>int((1 - unemp) * POPULATION)\<close>: the subtraction and the product are float
  operations on the double in the cell, and the rounded product is truncated.
\<close>

definition n_emp :: "terminal_row \<Rightarrow> int" where
  "n_emp r = py_int (fmul (fsub 1 (round64 (Unemployment r))) (real_of_int POPULATION))"

definition n_unemp :: "terminal_row \<Rightarrow> int" where
  "n_unemp r = POPULATION - n_emp r"

definition actual_bdp :: "terminal_row \<Rightarrow> int \<Rightarrow> real" where
  "actual_bdp r bdp_amount =
     (let a = row_get (EffectiveBDP r) (Some (real_of_int bdp_amount));
          a = (if isna a then Some (real_of_int bdp_amount) else a)
      in case a of Some v \<Rightarrow> v | None \<Rightarrow> real_of_int bdp_amount)"

definition y_emp :: "terminal_row \<Rightarrow> int \<Rightarrow> real" where
  "y_emp r bdp_amount = MarketWage r + actual_bdp r bdp_amount"

definition y_unemp :: "terminal_row \<Rightarrow> int \<Rightarrow> real" where
  "y_unemp r bdp_amount = actual_bdp r bdp_amount"

definition total_income :: "terminal_row \<Rightarrow> int \<Rightarrow> real" where
  "total_income r bdp_amount =
     real_of_int (n_emp r) * y_emp r bdp_amount + real_of_int (n_unemp r) * y_unemp r bdp_amount"

definition real_consumption :: "terminal_row \<Rightarrow> int \<Rightarrow> py_error + real" where
  "real_consumption r bdp_amount =
     fdiv (total_income r bdp_amount * MPC) (max 0.01 (PriceLevel r))"

definition gini_of :: "terminal_row \<Rightarrow> int \<Rightarrow> py_error + real" where
  "gini_of r bdp_amount =
     (if total_income r bdp_amount > 0 \<and> n_emp r > 0 \<and> n_unemp r > 0
      then fdiv (real_of_int (n_emp r * n_unemp r) * \<bar>y_emp r bdp_amount - y_unemp r bdp_amount\<bar>)
                (real_of_int POPULATION * total_income r bdp_amount)
      else Inr 0)"

record welfare_row =
  real_cons_pc :: real
  gini :: real
  adoption :: real
  unemployment :: real

text \<open>The body of the loop over the rows of one file.\<close>

definition compute_row :: "terminal_row \<Rightarrow> int \<Rightarrow> py_error + welfare_row" where
  "compute_row r bdp_amount =
     (case real_consumption r bdp_amount of
        Inl e \<Rightarrow> Inl e
      | Inr rc \<Rightarrow>
          (case fdiv rc (real_of_int POPULATION) of
             Inl e \<Rightarrow> Inl e
           | Inr pc \<Rightarrow>
               (case gini_of r bdp_amount of
                  Inl e \<Rightarrow> Inl e
                | Inr g \<Rightarrow>
                    Inr \<lparr>real_cons_pc = pc, gini = g,
                         adoption = TotalAdoption r * 100,
                         unemployment = Unemployment r * 100\<rparr>)))"

fun compute_welfare :: "terminal_row list \<Rightarrow> int \<Rightarrow> py_error + welfare_row list" where
  "compute_welfare [] bdp_amount = Inr []"
| "compute_welfare (r # df) bdp_amount =
     (case compute_row r bdp_amount of
        Inl e \<Rightarrow> Inl e
      | Inr w \<Rightarrow>
          (case compute_welfare df bdp_amount of
             Inl e \<Rightarrow> Inl e
           | Inr ws \<Rightarrow> Inr (w # ws)))"

section \<open>Aggregation over seeds\<close>

text \<open>
  The pandas reductions the scripts call, on the non-empty-or-not list of the values of a
  column: \<open>Series.mean\<close> is NaN on an empty column, \<open>Series.std\<close> is the sample
  standard deviation (divisor \<open>n - 1\<close>) and NaN on fewer than two values. NaN is
  \<open>None\<close>. \<open>Series.idxmax\<close> returns the label of the first maximum among the values
  that are not NaN, and has no label to return when there is none.
\<close>

definition pd_mean :: "real list \<Rightarrow> cell" where
  "pd_mean xs = (if xs = [] then None else Some (sum_list xs / real (length xs)))"

definition pd_std :: "real list \<Rightarrow> cell" where
  "pd_std xs =
     (if length xs < 2 then None
      else Some (sqrt (sum_list (map (\<lambda>x. (x - sum_list xs / real (length xs))\<^sup>2) xs)
                       / real (length xs - 1))))"

fun idxmax_from :: "('k \<times> real) option \<Rightarrow> ('k \<times> cell) list \<Rightarrow> ('k \<times> real) option" where
  "idxmax_from best [] = best"
| "idxmax_from best ((k, None) # xs) = idxmax_from best xs"
| "idxmax_from None ((k, Some v) # xs) = idxmax_from (Some (k, v)) xs"
| "idxmax_from (Some (kb, vb)) ((k, Some v) # xs) =
     idxmax_from (if vb < v then Some (k, v) else Some (kb, vb)) xs"

definition idxmax :: "('k \<times> cell) list \<Rightarrow> 'k option" where
  "idxmax xs = map_option fst (idxmax_from None xs)"

section \<open>regime\_welfare.py: aggregate table and optimal point\<close>

record summary =
  BDP :: int
  Regime :: string
  RealConsPc_mean :: cell
  RealConsPc_std :: cell
  Gini_mean :: cell
  Gini_std :: cell
  Adoption_mean :: cell
  Unemployment_mean :: cell

fun upper :: "regime \<Rightarrow> string" where
  "upper pln = ''PLN''"
| "upper eur = ''EUR''"

definition summary_of :: "int \<Rightarrow> regime \<Rightarrow> welfare_row list \<Rightarrow> summary" where
  "summary_of bdp regime w =
     \<lparr>BDP = bdp, Regime = upper regime,
      RealConsPc_mean = pd_mean (map real_cons_pc w),
      RealConsPc_std = pd_std (map real_cons_pc w),
      Gini_mean = pd_mean (map gini w),
      Gini_std = pd_std (map gini w),
      Adoption_mean = pd_mean (map adoption w),
      Unemployment_mean = pd_mean (map unemployment w)\<rparr>"

text \<open>
  One pass of the body of the load loop: what it appends to \<open>welfare\<close>. A missing file
  is caught and appends nothing. A file without rows gives a frame without columns, and
  reading its \<open>real_cons_pc\<close> column is an AttributeError that nothing catches.
\<close>

definition welfare_entry :: "results \<Rightarrow> int \<Rightarrow> regime \<Rightarrow> py_error + summary list" where
  "welfare_entry fs bdp regime =
     (case load_term fs regime bdp of
        None \<Rightarrow> Inr []
      | Some df \<Rightarrow>
          (case compute_welfare df bdp of
             Inl e \<Rightarrow> Inl e
           | Inr w \<Rightarrow> if w = [] then Inl AttributeError else Inr [summary_of bdp regime w]))"

fun welfare_loop :: "results \<Rightarrow> (int \<times> regime) list \<Rightarrow> summary list \<Rightarrow> py_error + summary list" where
  "welfare_loop fs [] welfare = Inr welfare"
| "welfare_loop fs ((bdp, regime) # rest) welfare =
     (case welfare_entry fs bdp regime of
        Inl e \<Rightarrow> Inl e
      | Inr es \<Rightarrow> welfare_loop fs rest (welfare @ es))"

definition wdf :: "results \<Rightarrow> py_error + summary list" where
  "wdf fs = welfare_loop fs (List.product BDP_LEVELS [pln, eur]) []"

text \<open>
  \<open>wdf[wdf['Regime'] == label]\<close>: a table built from an empty list has no columns,
  and selecting its \<open>Regime\<close> column is a KeyError.
\<close>

definition regime_rows :: "regime \<Rightarrow> summary list \<Rightarrow> py_error + summary list" where
  "regime_rows regime t =
     (if t = [] then Inl KeyError else Inr (filter (\<lambda>row. Regime row = upper regime) t))"

text \<open>
  The optimal point of one regime's rows: nothing is reported for an empty frame;
  otherwise the row labelled by \<open>idxmax\<close> of the mean real consumption is read, which
  fails when \<open>idxmax\<close> has no label.
\<close>

definition optimal_bdp :: "summary list \<Rightarrow> py_error + summary option" where
  "optimal_bdp df =
     (if df = [] then Inr None
      else (case idxmax (map (\<lambda>row. (row, RealConsPc_mean row)) df) of
              None \<Rightarrow> Inl KeyError
            | Some best \<Rightarrow> Inr (Some best)))"

text \<open>The script from the load loop to the optimal point of one regime.\<close>

definition optimal_report :: "results \<Rightarrow> regime \<Rightarrow> py_error + summary option" where
  "optimal_report fs regime =
     (case wdf fs of
        Inl e \<Rightarrow> Inl e
      | Inr t \<Rightarrow>
          (case regime_rows regime t of
             Inl e \<Rightarrow> Inl e
           | Inr df \<Rightarrow> optimal_bdp df))"

section \<open>regime\_sweep.py: sweep loader and critical point\<close>

record sweep_row =
  sw_BDP :: int
  sw_Adoption :: real
  sw_Inflation :: real
  sw_Unemployment :: real
  sw_ExRate :: real
  sw_RefRate :: real
  sw_NPL :: real
  sw_EffectiveBDP :: real

definition eff_bdp :: "terminal_row \<Rightarrow> int \<Rightarrow> real" where
  "eff_bdp row bdp =
     (let e = row_get (EffectiveBDP row) (Some (real_of_int bdp));
          e = (if isna e then Some (real_of_int bdp) else e)
      in case e of Some v \<Rightarrow> v | None \<Rightarrow> real_of_int bdp)"

definition sweep_row_of :: "int \<Rightarrow> terminal_row \<Rightarrow> sweep_row" where
  "sweep_row_of bdp row =
     \<lparr>sw_BDP = bdp,
      sw_Adoption = TotalAdoption row * 100,
      sw_Inflation = Inflation row * 100,
      sw_Unemployment = Unemployment row * 100,
      sw_ExRate = ExRate row,
      sw_RefRate = RefRate row * 100,
      sw_NPL = NPL row * 100,
      sw_EffectiveBDP = eff_bdp row bdp\<rparr>"

text \<open>The rows one sweep level adds: none when its file does not exist.\<close>

definition sweep_level :: "results \<Rightarrow> regime \<Rightarrow> int \<Rightarrow> sweep_row list" where
  "sweep_level fs regime bdp =
     (case fs regime bdp of
        None \<Rightarrow> []
      | Some df \<Rightarrow> map (sweep_row_of bdp) df)"

definition load_sweep :: "results \<Rightarrow> regime \<Rightarrow> sweep_row list" where
  "load_sweep fs regime = concat (map (sweep_level fs regime) BDP_LEVELS)"

text \<open>
  \<open>data.groupby('BDP')['Adoption'].std()\<close>: one entry per level that occurs in the
  data, the levels in ascending order.
\<close>

definition group_adoption :: "sweep_row list \<Rightarrow> int \<Rightarrow> real list" where
  "group_adoption data k = map sw_Adoption (filter (\<lambda>r. sw_BDP r = k) data)"

definition stds :: "sweep_row list \<Rightarrow> (int \<times> cell) list" where
  "stds data =
     map (\<lambda>k. (k, pd_std (group_adoption data k))) (sort (remdups (map sw_BDP data)))"

text \<open>
  The critical point of one regime's data: nothing is reported for an empty frame;
  otherwise it is \<open>stds.idxmax()\<close>, and when no level has a standard deviation
  \<open>idxmax\<close> has no label and reading \<open>stds[cp]\<close> fails.
\<close>

definition critical_point :: "sweep_row list \<Rightarrow> py_error + int option" where
  "critical_point data =
     (if data = [] then Inr None
      else (case idxmax (stds data) of
              None \<Rightarrow> Inl KeyError
            | Some cp \<Rightarrow> Inr (Some cp)))"

text \<open>
  The rest of the script, as far as it can fail. \<open>data[data['BDP'] == bdp]\<close> is a
  KeyError on a frame built from no rows, which has no columns.
\<close>

definition level_rows :: "sweep_row list \<Rightarrow> int \<Rightarrow> py_error + sweep_row list" where
  "level_rows data bdp =
     (if data = [] then Inl KeyError else Inr (filter (\<lambda>r. sw_BDP r = bdp) data))"

text \<open>One printed line of the summary table, for a level both regimes have rows of.\<close>

record summary_line =
  sl_BDP :: int
  pln_Adoption_mean :: cell
  pln_Adoption_std :: cell
  eur_Adoption_mean :: cell
  eur_Adoption_std :: cell
  pln_Inflation_mean :: cell
  eur_Inflation_mean :: cell
  pln_Unemployment_mean :: cell
  eur_Unemployment_mean :: cell
  eur_eff :: cell

definition summary_line_of :: "int \<Rightarrow> sweep_row list \<Rightarrow> sweep_row list \<Rightarrow> summary_line" where
  "summary_line_of bdp pln_sub eur_sub =
     \<lparr>sl_BDP = bdp,
      pln_Adoption_mean = pd_mean (map sw_Adoption pln_sub),
      pln_Adoption_std = pd_std (map sw_Adoption pln_sub),
      eur_Adoption_mean = pd_mean (map sw_Adoption eur_sub),
      eur_Adoption_std = pd_std (map sw_Adoption eur_sub),
      pln_Inflation_mean = pd_mean (map sw_Inflation pln_sub),
      eur_Inflation_mean = pd_mean (map sw_Inflation eur_sub),
      pln_Unemployment_mean = pd_mean (map sw_Unemployment pln_sub),
      eur_Unemployment_mean = pd_mean (map sw_Unemployment eur_sub),
      eur_eff = pd_mean (map sw_EffectiveBDP eur_sub)\<rparr>"

fun summary_table :: "sweep_row list \<Rightarrow> sweep_row list \<Rightarrow> int list \<Rightarrow> py_error + summary_line list" where
  "summary_table data_pln data_eur [] = Inr []"
| "summary_table data_pln data_eur (bdp # rest) =
     (case level_rows data_pln bdp of
        Inl e \<Rightarrow> Inl e
      | Inr pln_sub \<Rightarrow>
          (case level_rows data_eur bdp of
             Inl e \<Rightarrow> Inl e
           | Inr eur_sub \<Rightarrow>
               (case summary_table data_pln data_eur rest of
                  Inl e \<Rightarrow> Inl e
                | Inr ls \<Rightarrow>
                    if pln_sub = [] \<or> eur_sub = [] then Inr ls
                    else Inr (summary_line_of bdp pln_sub eur_sub # ls))))"

text \<open>
  The loop over the two regimes that panel C and the final report share: a regime
  without rows is passed over, and the critical point of the others is marked (panel C)
  or printed (report) under the regime's label.
\<close>

fun critical_loop :: "(sweep_row list \<times> string) list \<Rightarrow> py_error + (string \<times> int) list" where
  "critical_loop [] = Inr []"
| "critical_loop ((data, label) # rest) =
     (case critical_point data of
        Inl e \<Rightarrow> Inl e
      | Inr None \<Rightarrow> critical_loop rest
      | Inr (Some cp) \<Rightarrow>
          (case critical_loop rest of
             Inl e \<Rightarrow> Inl e
           | Inr cps \<Rightarrow> Inr ((label, cp) # cps)))"

text \<open>
  The script in its order: load both regimes, draw figure 1 with the markers of panel C,
  print the summary table, print the critical points. The bifurcation panels and the
  difference figure only aggregate and draw, and are left out. An error at any step
  ends the run, so nothing after it is drawn or printed.
\<close>

record sweep_report =
  markers :: "(string \<times> int) list"
  table :: "summary_line list"
  critical_points :: "(string \<times> int) list"

definition sweep_script :: "results \<Rightarrow> py_error + sweep_report" where
  "sweep_script fs =
     (let data_pln = load_sweep fs pln; data_eur = load_sweep fs eur
      in case critical_loop [(data_pln, ''PLN''), (data_eur, ''EUR'')] of
           Inl e \<Rightarrow> Inl e
         | Inr ms \<Rightarrow>
             (case summary_table data_pln data_eur BDP_LEVELS of
                Inl e \<Rightarrow> Inl e
              | Inr t \<Rightarrow>
                  (case critical_loop [(data_pln, ''PLN''), (data_eur, ''EUR'')] of
                     Inl e \<Rightarrow> Inl e
                   | Inr cps \<Rightarrow> Inr \<lparr>markers = ms, table = t, critical_points = cps\<rparr>)))"

section \<open>regime\_charts.py: the time-series figure\<close>

text \<open>
  A time-series table is kept abstract (\<open>'ts\<close>); a plotted line records the panel it is
  drawn in, the metric, the regime and the table it is drawn from.
\<close>

record 'ts line =
  panel_col :: nat
  panel_row :: nat
  metric :: string
  line_regime :: regime
  line_data :: 'ts

definition BDP_SHOW :: "int list" where
  "BDP_SHOW = [0, 2000, 3000]"

definition panel_metrics :: "string list" where
  "panel_metrics = [''Inflation'', ''TotalAdoption'', ''Unemployment'']"

definition load_ts :: "(regime \<Rightarrow> int \<Rightarrow> 'ts option) \<Rightarrow> regime \<Rightarrow> int \<Rightarrow> 'ts option" where
  "load_ts fs regime bdp = fs regime bdp"

definition figure1_column :: "(regime \<Rightarrow> int \<Rightarrow> 'ts option) \<Rightarrow> nat \<Rightarrow> int \<Rightarrow> 'ts line list" where
  "figure1_column fs col_idx bdp =
     (case load_ts fs pln bdp of
        None \<Rightarrow> []
      | Some ts_pln \<Rightarrow>
          (case load_ts fs eur bdp of
             None \<Rightarrow> []
           | Some ts_eur \<Rightarrow>
               concat (map (\<lambda>(row_idx, col_base).
                              map (\<lambda>(ts, label).
                                     \<lparr>panel_col = col_idx, panel_row = row_idx,
                                      metric = col_base, line_regime = label,
                                      line_data = ts\<rparr>)
                                  [(ts_pln, pln), (ts_eur, eur)])
                           (enumerate 0 panel_metrics))))"

definition figure1 :: "(regime \<Rightarrow> int \<Rightarrow> 'ts option) \<Rightarrow> 'ts line list" where
  "figure1 fs =
     concat (map (\<lambda>(col_idx, bdp). figure1_column fs col_idx bdp) (enumerate 0 BDP_SHOW))"

section \<open>The quantities the specification names\<close>

text \<open>
  The sample standard deviation of the terminal adoption metric (in percent) across the
  seeds of one file, as the bifurcation view describes it.
\<close>

definition adoption_std :: "terminal_row list \<Rightarrow> cell" where
  "adoption_std df = pd_std (map (\<lambda>row. TotalAdoption row * 100) df)"


text \<open>
  The transfer amount the specification describes: the row's EffectiveBDP when that
  field is present and not NaN, the nominal sweep level otherwise.
\<close>

definition transfer_used :: "cell option \<Rightarrow> int \<Rightarrow> real" where
  "transfer_used c nominal = (case c of Some (Some v) \<Rightarrow> v | _ \<Rightarrow> real_of_int nominal)"

text \<open>
  The mean real consumption per capita over the seeds of one level's file, the quantity
  the optimal-point search maximises.
\<close>

definition mean_real_cons :: "terminal_row list \<Rightarrow> int \<Rightarrow> cell" where
  "mean_real_cons df bdp =
     (case compute_welfare df bdp of Inl e \<Rightarrow> None | Inr w \<Rightarrow> pd_mean (map real_cons_pc w))"

section \<open>Example inputs\<close>

text \<open>A seed's terminal row with a given adoption share, and small results trees.\<close>

definition seed_row :: "real \<Rightarrow> terminal_row" where
  "seed_row a = \<lparr>Unemployment = 0.10, MarketWage = 3000, PriceLevel = 1.0, TotalAdoption = a,
     Inflation = 0.02, ExRate = 4.3, RefRate = 0.05, NPL = 0.03, EffectiveBDP = None\<rparr>"


definition fs_two :: results where
  "fs_two regime bdp =
     (if regime = pln \<and> bdp = 0 then Some [seed_row 0.1, seed_row 0.3]
      else if regime = pln \<and> bdp = 250 then Some [seed_row 0.2, seed_row 0.2]
      else None)"

text \<open>A tree whose only file has no rows, and \<open>fs_two\<close> without its second file.\<close>

definition fs_empty :: results where
  "fs_empty regime bdp = (if regime = pln \<and> bdp = 0 then Some [] else None)"




text \<open>Time-series tables (just tagged by a number); the EUR table of level 2000 is missing.\<close>

definition fs_ts :: "regime \<Rightarrow> int \<Rightarrow> nat option" where
  "fs_ts regime bdp =
     (if regime = pln then Some 1
      else if bdp = 2000 then None else Some 2)"

section \<open>Properties of the welfare derivation\<close>

lemma py_int_trunc: "real_of_int (py_int x) = sgn x * real_of_int \<lfloor>\<bar>x\<bar>\<rfloor>"
  by (auto simp: py_int_def sgn_if ceiling_def)

lemma real_consumption_Inr:
  "real_consumption r b = Inr (total_income r b * MPC / max 0.01 (PriceLevel r))"
  by (simp add: real_consumption_def fdiv_def max_def)

lemma gini_of_Inr:
  "gini_of r b =
     Inr (if total_income r b > 0 \<and> n_emp r > 0 \<and> n_unemp r > 0
          then (real_of_int (n_emp r * n_unemp r) * \<bar>y_emp r b - y_unemp r b\<bar>) /
               (real_of_int POPULATION * total_income r b)
          else 0)"
  by (simp add: gini_of_def fdiv_def POPULATION_def)

text \<open>No division of the loop body can fail: every row yields a welfare record.\<close>

lemma compute_row_Inr:
  "compute_row r b =
     Inr \<lparr>real_cons_pc = total_income r b * MPC / max 0.01 (PriceLevel r) / real_of_int POPULATION,
          gini = (if total_income r b > 0 \<and> n_emp r > 0 \<and> n_unemp r > 0
                  then (real_of_int (n_emp r * n_unemp r) * \<bar>y_emp r b - y_unemp r b\<bar>) /
                       (real_of_int POPULATION * total_income r b)
                  else 0),
          adoption = TotalAdoption r * 100,
          unemployment = Unemployment r * 100\<rparr>"
  unfolding compute_row_def real_consumption_Inr gini_of_Inr
  by (simp add: fdiv_def POPULATION_def)

lemma compute_welfare_Inr:
  "\<exists>w. compute_welfare df b = Inr w \<and> length w = length df"
  by (induction df) (auto simp: compute_row_Inr)

lemma n_sum: "n_emp r + n_unemp r = POPULATION"
  by (simp add: n_unemp_def)

lemma two_class_bound:
  fixes a c ye yu :: real
  assumes "0 < a" "0 < c" "0 \<le> ye" "0 \<le> yu"
  shows "a * c * \<bar>ye - yu\<bar> \<le> (a + c) * (a * ye + c * yu)"
proof -
  have "\<bar>ye - yu\<bar> \<le> ye + yu" using assms by simp
  then have "a * c * \<bar>ye - yu\<bar> \<le> a * c * (ye + yu)"
    using assms by (simp add: mult_left_mono)
  also have "\<dots> \<le> a * c * (ye + yu) + (a * a * ye + c * c * yu)"
    using assms by simp
  also have "\<dots> = (a + c) * (a * ye + c * yu)"
    by (simp add: algebra_simps)
  finally show ?thesis .
qed

text \<open>Evaluating \<open>round64\<close> at a value whose binary exponent is known.\<close>

lemma find_exp_eq:
  "(2::real) powi e \<le> a \<Longrightarrow> a < 2 powi (e + 1) \<Longrightarrow> - 1022 \<le> e \<Longrightarrow> e + 1023 \<le> int n \<Longrightarrow>
   find_exp n a = e"
proof (induction n)
  case 0
  then show ?case by simp
next
  case (Suc n)
  show ?case
  proof (cases "int n - 1022 = e")
    case True
    with Suc.prems show ?thesis by simp
  next
    case False
    with Suc.prems have lt: "e + 1 \<le> int n - 1022" by simp
    have "(2::real) powi (e + 1) \<le> 2 powi (int n - 1022)"
      using lt by (intro power_int_increasing) simp_all
    with Suc.prems have "\<not> 2 powi (int n - 1022) \<le> a" by simp
    moreover have "find_exp n a = e" using Suc.IH Suc.prems lt by simp
    ultimately show ?thesis by simp
  qed
qed

lemma round64_eval:
  assumes "(2::real) powi e \<le> \<bar>x\<bar>" "\<bar>x\<bar> < 2 powi (e + 1)" "- 1022 \<le> e" "e \<le> 1023"
  shows "round64 x = real_of_int (round_half_even (x / 2 powi (e - 52))) * 2 powi (e - 52)"
proof -
  have "0 < \<bar>x\<bar>" using assms(1) zero_less_power_int [of "2::real" e] by linarith
  then have nz: "x \<noteq> 0" by auto
  have "find_exp 2046 \<bar>x\<bar> = e" using assms by (intro find_exp_eq) simp_all
  with nz show ?thesis by (simp add: round64_def Let_def)
qed

lemma round64_tenth: "round64 (1 / 10) = 3602879701896397 / 36028797018963968"
  by (subst round64_eval [where e = "- 4"]) (simp_all add: round_half_even_def Let_def)

lemma fsub_tenth: "fsub 1 (3602879701896397 / 36028797018963968) = 8106479329266893 / 9007199254740992"
  unfolding fsub_def
  by (subst round64_eval [where e = "- 1"]) (simp_all add: round_half_even_def Let_def)

lemma fmul_tenth: "fmul (8106479329266893 / 9007199254740992) 100000 = 90000"
  unfolding fmul_def
  by (subst round64_eval [where e = 16]) (simp_all add: round_half_even_def Let_def)

lemma round64_nine_tenths: "round64 (9 / 10) = 8106479329266893 / 9007199254740992"
  by (subst round64_eval [where e = "- 1"]) (simp_all add: round_half_even_def Let_def)

lemma fsub_nine_tenths:
  "fsub 1 (8106479329266893 / 9007199254740992) = 900719925474099 / 9007199254740992"
  unfolding fsub_def
  by (subst round64_eval [where e = "- 4"]) (simp_all add: round_half_even_def Let_def)

lemma fmul_nine_tenths:
  "fmul (900719925474099 / 9007199254740992) 100000 = 5497558138879999 / 549755813888"
  unfolding fmul_def
  by (subst round64_eval [where e = 13]) (simp_all add: round_half_even_def Let_def)

lemma fsub_one_zero: "fsub 1 (round64 0) = 1"
  unfolding fsub_def
  by (subst round64_eval [where e = 0]) (simp_all add: round64_def round_half_even_def Let_def)

lemma fmul_population: "fmul 1 100000 = 100000"
  unfolding fmul_def
  by (subst round64_eval [where e = 16]) (simp_all add: round_half_even_def Let_def)

lemma counts_tenth:
  assumes "Unemployment r = 1 / 10"
  shows "n_emp r = 90000" and "n_unemp r = 10000"
proof -
  show ne: "n_emp r = 90000"
    unfolding n_emp_def assms round64_tenth fsub_tenth
    by (simp add: POPULATION_def fmul_tenth py_int_def)
  show "n_unemp r = 10000"
    unfolding n_unemp_def ne by (simp add: POPULATION_def)
qed

lemma counts_nine_tenths:
  assumes "Unemployment r = 9 / 10"
  shows "n_emp r = 9999" and "n_unemp r = 90001"
proof -
  show ne: "n_emp r = 9999"
    unfolding n_emp_def assms round64_nine_tenths fsub_nine_tenths
    by (simp add: POPULATION_def fmul_nine_tenths py_int_def)
  show "n_unemp r = 90001"
    unfolding n_unemp_def ne by (simp add: POPULATION_def)
qed

lemma counts_zero:
  assumes "Unemployment r = 0"
  shows "n_emp r = 100000" and "n_unemp r = 0"
proof -
  show ne: "n_emp r = 100000"
    unfolding n_emp_def assms fsub_one_zero
    by (simp add: POPULATION_def fmul_population py_int_def)
  show "n_unemp r = 0"
    unfolding n_unemp_def ne by (simp add: POPULATION_def)
qed

lemma seed_row_income:
  "total_income ((seed_row a)\<lparr>PriceLevel := p\<rparr>) 2000 = 470000000"
proof -
  let ?r = "(seed_row a)\<lparr>PriceLevel := p\<rparr>"
  have u: "Unemployment ?r = 1 / 10" and mw: "MarketWage ?r = 3000"
    by (simp_all add: seed_row_def)
  have ab: "actual_bdp ?r 2000 = 2000"
    by (simp add: actual_bdp_def row_get_def isna_def seed_row_def)
  show ?thesis
    unfolding total_income_def y_emp_def y_unemp_def counts_tenth [OF u] ab mw by simp
qed

text \<open>
  C1. The concrete scenario of the specification: unemployment 0.10, wage 3000, price
  level 1.0, no EffectiveBDP column, nominal transfer 2000. The derivation gives 90,000
  employed and 10,000 unemployed, incomes 5000 and 2000, total income 470,000,000, real
  consumption per capita 3854 and the Gini coefficient
  (90,000 x 10,000 x 3000) / (100,000 x 470,000,000), which is within 0.0001 of 0.0574.
\<close>

theorem concrete_scenario:
  assumes "Unemployment r = 0.10" "MarketWage r = 3000" "PriceLevel r = 1.0"
    and "EffectiveBDP r = None"
  shows "n_emp r = 90000 \<and> n_unemp r = 10000 \<and>
         y_emp r 2000 = 5000 \<and> y_unemp r 2000 = 2000 \<and>
         total_income r 2000 = 470000000 \<and>
         (\<exists>w. compute_row r 2000 = Inr w \<and> real_cons_pc w = 3854.0 \<and>
              gini w = (90000 * 10000 * 3000) / (100000 * 470000000) \<and>
              \<bar>gini w - 0.0574\<bar> < 0.0001)"
proof -
  have u: "Unemployment r = 1 / 10" using assms(1) by simp
  note ne = counts_tenth(1) [OF u] and nu = counts_tenth(2) [OF u]
  have ab: "actual_bdp r 2000 = 2000"
    using assms by (simp add: actual_bdp_def row_get_def isna_def)
  have ye: "y_emp r 2000 = 5000" using assms by (simp add: y_emp_def ab)
  have yu: "y_unemp r 2000 = 2000" by (simp add: y_unemp_def ab)
  have ti: "total_income r 2000 = 470000000"
    by (simp add: total_income_def ne nu ye yu)
  show ?thesis
    unfolding compute_row_Inr ne nu ye yu ti using assms
    by (simp add: MPC_def POPULATION_def)
qed

theorem concrete_scenario_witness:
  "n_emp (seed_row 0.5) = 90000 \<and> n_unemp (seed_row 0.5) = 10000 \<and>
   y_emp (seed_row 0.5) 2000 = 5000 \<and> y_unemp (seed_row 0.5) 2000 = 2000 \<and>
   total_income (seed_row 0.5) 2000 = 470000000 \<and>
   (\<exists>w. compute_row (seed_row 0.5) 2000 = Inr w \<and> real_cons_pc w = 3854 \<and> gini w = 27 / 470)"
  using concrete_scenario [of "seed_row 0.5"] by (auto simp add: seed_row_def)

text \<open>
  C2. Every row yields a Gini coefficient, and it is never negative. For a valid
  two-class split, that is when neither class has a negative income, it lies in [0, 1];
  and it is exactly 0 whenever total income is not positive or the employed or the
  unemployed class is empty.
\<close>

theorem gini_bounds:
  "\<exists>w. compute_row r b = Inr w \<and> 0 \<le> gini w \<and>
       (0 \<le> y_emp r b \<and> 0 \<le> y_unemp r b \<longrightarrow> gini w \<le> 1) \<and>
       (total_income r b \<le> 0 \<or> n_emp r \<le> 0 \<or> n_unemp r \<le> 0 \<longrightarrow> gini w = 0)"
proof -
  let ?g = "if total_income r b > 0 \<and> n_emp r > 0 \<and> n_unemp r > 0
            then (real_of_int (n_emp r * n_unemp r) * \<bar>y_emp r b - y_unemp r b\<bar>) /
                 (real_of_int POPULATION * total_income r b)
            else 0"
  obtain w where w: "compute_row r b = Inr w" and g: "gini w = ?g"
    unfolding compute_row_Inr by simp
  have zero: "total_income r b \<le> 0 \<or> n_emp r \<le> 0 \<or> n_unemp r \<le> 0 \<longrightarrow> gini w = 0"
    unfolding g by auto
  have lo: "0 \<le> gini w"
    unfolding g by (simp add: POPULATION_def)
  have hi: "gini w \<le> 1" if nn: "0 \<le> y_emp r b" "0 \<le> y_unemp r b"
  proof (cases "total_income r b > 0 \<and> n_emp r > 0 \<and> n_unemp r > 0")
    case False
    then show ?thesis unfolding g by auto
  next
    case True
    define a where "a = real_of_int (n_emp r)"
    define c where "c = real_of_int (n_unemp r)"
    have pos: "0 < a" "0 < c" using True by (simp_all add: a_def c_def)
    have P: "real_of_int POPULATION = a + c"
      unfolding a_def c_def using n_sum [of r] by (metis of_int_add)
    have T: "total_income r b = a * y_emp r b + c * y_unemp r b"
      by (simp add: total_income_def a_def c_def)
    have den: "0 < (a + c) * total_income r b"
      using pos True by simp
    have num: "a * c * \<bar>y_emp r b - y_unemp r b\<bar> \<le> (a + c) * total_income r b"
      unfolding T using two_class_bound [OF pos nn] .
    have geq: "gini w = a * c * \<bar>y_emp r b - y_unemp r b\<bar> / ((a + c) * total_income r b)"
      unfolding g using True by (simp add: a_def c_def P [unfolded a_def c_def])
    show ?thesis unfolding geq using den num by simp
  qed
  from w lo zero hi show ?thesis by blast
qed

theorem gini_bounds_witness:
  "(\<exists>w. compute_row (seed_row 0.5) 2000 = Inr w \<and> 0 \<le> gini w \<and> gini w \<le> 1) \<and>
   (\<exists>w. compute_row ((seed_row 0.5)\<lparr>Unemployment := 0\<rparr>) 2000 = Inr w \<and> gini w = 0)"
proof
  have "0 \<le> y_emp (seed_row 0.5) 2000 \<and> 0 \<le> y_unemp (seed_row 0.5) 2000"
    by (simp add: y_emp_def y_unemp_def actual_bdp_def row_get_def isna_def seed_row_def)
  with gini_bounds [of "seed_row 0.5" 2000]
  show "\<exists>w. compute_row (seed_row 0.5) 2000 = Inr w \<and> 0 \<le> gini w \<and> gini w \<le> 1"
    by blast
next
  have "n_unemp ((seed_row 0.5)\<lparr>Unemployment := 0\<rparr>) \<le> 0"
    using counts_zero(2) [of "(seed_row 0.5)\<lparr>Unemployment := 0\<rparr>"] by simp
  with gini_bounds [of "(seed_row 0.5)\<lparr>Unemployment := 0\<rparr>" 2000]
  show "\<exists>w. compute_row ((seed_row 0.5)\<lparr>Unemployment := 0\<rparr>) 2000 = Inr w \<and> gini w = 0"
    by blast
qed

text \<open>
  The bound of C2 rests on the incomes not being negative: a negative transfer that keeps
  total income positive gives a value above 1.
\<close>

lemma gini_negative_transfer:
  "\<exists>w. compute_row ((seed_row 0.5)\<lparr>MarketWage := 1000, EffectiveBDP := Some (Some (- 899))\<rparr>) 0
          = Inr w \<and> gini w = 90"
proof -
  let ?r = "(seed_row 0.5)\<lparr>MarketWage := 1000, EffectiveBDP := Some (Some (- 899))\<rparr>"
  have u: "Unemployment ?r = 1 / 10" by (simp add: seed_row_def)
  note ne = counts_tenth(1) [OF u] and nu = counts_tenth(2) [OF u]
  have ab: "actual_bdp ?r 0 = - 899"
    by (simp add: actual_bdp_def row_get_def isna_def)
  have ye: "y_emp ?r 0 = 101" unfolding y_emp_def ab by simp
  have yu: "y_unemp ?r 0 = - 899" unfolding y_unemp_def ab by simp
  have ti: "total_income ?r 0 = 100000"
    unfolding total_income_def ne nu ye yu by simp
  show ?thesis
    unfolding compute_row_Inr ne nu ye yu ti by (simp add: POPULATION_def)
qed

text \<open>
  C3. As stated, with the employed count the truncation of the exact product
  (1 - u) x P, the claim fails: the code truncates the product as computed in double
  precision. At u = 0.9 the computed product is just below 10,000 and the employed count
  is 9,999, where the exact product 10,000 would give 10,000.
\<close>

theorem split_population_counterexample:
  "n_emp ((seed_row 0.5)\<lparr>Unemployment := 0.9\<rparr>) = 9999 \<and>
   py_int ((1 - 0.9) * real_of_int POPULATION) = 10000"
proof
  show "n_emp ((seed_row 0.5)\<lparr>Unemployment := 0.9\<rparr>) = 9999"
    by (rule counts_nine_tenths(1)) simp
  show "py_int ((1 - 0.9) * real_of_int POPULATION) = 10000"
    by (simp add: py_int_def POPULATION_def)
qed

text \<open>
  C3, amended. The employed count is the product (1 - u) x P as computed in double
  precision, with the fractional part dropped (truncation toward zero); the unemployed
  count is the remainder; and the two counts add up to the population P = 100,000 for
  every unemployment fraction u.
\<close>

theorem split_population:
  "real_of_int (n_emp r) =
     sgn (fmul (fsub 1 (round64 (Unemployment r))) (real_of_int POPULATION)) *
       real_of_int \<lfloor>\<bar>fmul (fsub 1 (round64 (Unemployment r))) (real_of_int POPULATION)\<bar>\<rfloor> \<and>
   n_unemp r = POPULATION - n_emp r \<and>
   n_emp r + n_unemp r = POPULATION \<and> POPULATION = 100000"
  by (simp add: n_emp_def n_unemp_def py_int_trunc POPULATION_def)

theorem split_population_witness:
  "n_emp ((seed_row 0.5)\<lparr>Unemployment := 0.9\<rparr>) = 9999 \<and>
   n_unemp ((seed_row 0.5)\<lparr>Unemployment := 0.9\<rparr>) = 90001 \<and>
   n_emp ((seed_row 0.5)\<lparr>Unemployment := 0.9\<rparr>) + n_unemp ((seed_row 0.5)\<lparr>Unemployment := 0.9\<rparr>)
     = 100000"
proof -
  have u: "Unemployment ((seed_row 0.5)\<lparr>Unemployment := 0.9\<rparr>) = 9 / 10" by simp
  show ?thesis
    using split_population [of "(seed_row 0.5)\<lparr>Unemployment := 0.9\<rparr>"] counts_nine_tenths [OF u]
    by simp
qed

text \<open>
  C8. The divisor of the real-consumption division is max(0.01, price level). It is at
  least 0.01 whatever the price level is, zero and negative values included, so the
  division never has a zero divisor: the row always yields a record, and its real
  consumption is total nominal income x MPC over that floored price (per capita: over
  the population as well).
\<close>

theorem floored_price:
  "0.01 \<le> max 0.01 (PriceLevel r) \<and> max 0.01 (PriceLevel r) \<noteq> 0 \<and>
   real_consumption r b = Inr (total_income r b * MPC / max 0.01 (PriceLevel r)) \<and>
   real_consumption r b \<noteq> Inl ZeroDivisionError \<and>
   (\<exists>w. compute_row r b = Inr w \<and>
        real_cons_pc w =
          total_income r b * MPC / max 0.01 (PriceLevel r) / real_of_int POPULATION)"
  unfolding compute_row_Inr real_consumption_Inr by (simp add: max_def)

theorem floored_price_witness:
  "real_consumption ((seed_row 0.5)\<lparr>PriceLevel := 0\<rparr>) 2000 = Inr 38540000000 \<and>
   real_consumption ((seed_row 0.5)\<lparr>PriceLevel := - 3\<rparr>) 2000 = Inr 38540000000"
proof -
  have ti: "total_income ((seed_row 0.5)\<lparr>PriceLevel := p\<rparr>) 2000 = 470000000" for p
    by (rule seed_row_income)
  show ?thesis
    using floored_price [of "(seed_row 0.5)\<lparr>PriceLevel := 0\<rparr>" 2000]
      floored_price [of "(seed_row 0.5)\<lparr>PriceLevel := - 3\<rparr>" 2000]
    unfolding ti by (simp add: MPC_def)
qed

section \<open>The effective transfer\<close>

lemma actual_bdp_cases:
  "actual_bdp r b = (case EffectiveBDP r of Some (Some v) \<Rightarrow> v | _ \<Rightarrow> real_of_int b)"
  by (simp add: actual_bdp_def row_get_def isna_def split: option.splits)

lemma eff_bdp_cases:
  "eff_bdp r b = (case EffectiveBDP r of Some (Some v) \<Rightarrow> v | _ \<Rightarrow> real_of_int b)"
  by (simp add: eff_bdp_def row_get_def isna_def split: option.splits)

text \<open>
  C4. The transfer that enters both class incomes is the row's EffectiveBDP when the
  field is present and not NaN and the nominal sweep level of the file otherwise; the
  sweep loader records EffectiveBDP with the same fallback.
\<close>

theorem effective_transfer:
  "actual_bdp r b = transfer_used (EffectiveBDP r) b \<and>
   y_unemp r b = transfer_used (EffectiveBDP r) b \<and>
   y_emp r b = MarketWage r + transfer_used (EffectiveBDP r) b \<and>
   sw_EffectiveBDP (sweep_row_of b r) = transfer_used (EffectiveBDP r) b \<and>
   (fs g b = Some df \<longrightarrow>
      map sw_EffectiveBDP (sweep_level fs g b) = map (\<lambda>row. transfer_used (EffectiveBDP row) b) df)"
  by (simp add: y_emp_def y_unemp_def actual_bdp_cases eff_bdp_cases transfer_used_def
      sweep_row_of_def sweep_level_def)

theorem effective_transfer_witness:
  "y_unemp (seed_row 0.5) 2000 = 2000 \<and>
   y_unemp ((seed_row 0.5)\<lparr>EffectiveBDP := Some None\<rparr>) 2000 = 2000 \<and>
   y_unemp ((seed_row 0.5)\<lparr>EffectiveBDP := Some (Some 1500)\<rparr>) 2000 = 1500 \<and>
   y_emp ((seed_row 0.5)\<lparr>EffectiveBDP := Some (Some 1500)\<rparr>) 2000 = 4500 \<and>
   map sw_EffectiveBDP (sweep_level fs_two pln 250) = [250, 250] \<and>
   sw_EffectiveBDP (sweep_row_of 250 ((seed_row 0.5)\<lparr>EffectiveBDP := Some (Some 100)\<rparr>)) = 100"
  using effective_transfer [of "seed_row 0.5" 2000 fs_two pln "[]"]
    effective_transfer [of "(seed_row 0.5)\<lparr>EffectiveBDP := Some None\<rparr>" 2000 fs_two pln "[]"]
    effective_transfer [of "(seed_row 0.5)\<lparr>EffectiveBDP := Some (Some 1500)\<rparr>" 2000 fs_two pln "[]"]
    effective_transfer [of "(seed_row 0.5)\<lparr>EffectiveBDP := Some (Some 100)\<rparr>" 250 fs_two pln
       "[seed_row 0.2, seed_row 0.2]"]
  by (simp add: transfer_used_def seed_row_def fs_two_def)

section \<open>Properties of \<open>idxmax\<close>\<close>

lemma idxmax_from_None:
  "idxmax_from best xs = None \<longleftrightarrow> best = None \<and> (\<forall>k v. (k, Some v) \<notin> set xs)"
  by (induction best xs rule: idxmax_from.induct) auto

lemma idxmax_from_Some:
  assumes "idxmax_from best xs = Some (kb, vb)"
  shows "(best = Some (kb, vb) \<and> (\<forall>k v. (k, Some v) \<in> set xs \<longrightarrow> v \<le> vb)) \<or>
         (\<exists>ys zs. xs = ys @ (kb, Some vb) # zs \<and>
            (\<forall>k v. best = Some (k, v) \<longrightarrow> v < vb) \<and>
            (\<forall>k v. (k, Some v) \<in> set ys \<longrightarrow> v < vb) \<and>
            (\<forall>k v. (k, Some v) \<in> set zs \<longrightarrow> v \<le> vb))"
  using assms
proof (induction best xs rule: idxmax_from.induct)
  case (1 best)
  then show ?case by simp
next
  case (2 best k xs)
  from 2 have "idxmax_from best xs = Some (kb, vb)" by simp
  from "2.IH" [OF this] show ?case
  proof
    assume "best = Some (kb, vb) \<and> (\<forall>k v. (k, Some v) \<in> set xs \<longrightarrow> v \<le> vb)"
    then show ?thesis by auto
  next
    assume "\<exists>ys zs. xs = ys @ (kb, Some vb) # zs \<and>
            (\<forall>k v. best = Some (k, v) \<longrightarrow> v < vb) \<and>
            (\<forall>k v. (k, Some v) \<in> set ys \<longrightarrow> v < vb) \<and>
            (\<forall>k v. (k, Some v) \<in> set zs \<longrightarrow> v \<le> vb)"
    then obtain ys zs where h: "xs = ys @ (kb, Some vb) # zs"
            "\<forall>k v. best = Some (k, v) \<longrightarrow> v < vb"
            "\<forall>k v. (k, Some v) \<in> set ys \<longrightarrow> v < vb"
            "\<forall>k v. (k, Some v) \<in> set zs \<longrightarrow> v \<le> vb" by blast
    have "(k, None) # xs = ((k, None) # ys) @ (kb, Some vb) # zs" using h by simp
    moreover have "\<forall>k' v. (k', Some v) \<in> set ((k, None) # ys) \<longrightarrow> v < vb" using h by auto
    ultimately show ?thesis using h(2,4) by (intro disjI2 exI [of _ "(k, None) # ys"] exI [of _ zs]) simp
  qed
next
  case (3 k v xs)
  from 3 have "idxmax_from (Some (k, v)) xs = Some (kb, vb)" by simp
  from "3.IH" [OF this] show ?case
  proof
    assume a: "Some (k, v) = Some (kb, vb) \<and> (\<forall>k v. (k, Some v) \<in> set xs \<longrightarrow> v \<le> vb)"
    then have "(k, Some v) # xs = [] @ (kb, Some vb) # xs" by simp
    then show ?thesis using a by (intro disjI2 exI [of _ "[]"] exI [of _ xs]) simp
  next
    assume "\<exists>ys zs. xs = ys @ (kb, Some vb) # zs \<and>
            (\<forall>k' v'. Some (k, v) = Some (k', v') \<longrightarrow> v' < vb) \<and>
            (\<forall>k v. (k, Some v) \<in> set ys \<longrightarrow> v < vb) \<and>
            (\<forall>k v. (k, Some v) \<in> set zs \<longrightarrow> v \<le> vb)"
    then obtain ys zs where h: "xs = ys @ (kb, Some vb) # zs"
            "v < vb"
            "\<forall>k v. (k, Some v) \<in> set ys \<longrightarrow> v < vb"
            "\<forall>k v. (k, Some v) \<in> set zs \<longrightarrow> v \<le> vb" by blast
    have "(k, Some v) # xs = ((k, Some v) # ys) @ (kb, Some vb) # zs" using h by simp
    moreover have "\<forall>k' v'. (k', Some v') \<in> set ((k, Some v) # ys) \<longrightarrow> v' < vb" using h by auto
    ultimately show ?thesis using h(4) by (intro disjI2 exI [of _ "(k, Some v) # ys"] exI [of _ zs]) simp
  qed
next
  case (4 kb0 vb0 k v xs)
  let ?b = "if vb0 < v then Some (k, v) else Some (kb0, vb0)"
  from 4 have run: "idxmax_from ?b xs = Some (kb, vb)" by simp
  from "4.IH" [OF this] show ?case
  proof
    assume a: "?b = Some (kb, vb) \<and> (\<forall>k v. (k, Some v) \<in> set xs \<longrightarrow> v \<le> vb)"
    show ?thesis
    proof (cases "vb0 < v")
      case True
      with a have e: "k = kb" "v = vb" by auto
      have "(k, Some v) # xs = [] @ (kb, Some vb) # xs" using e by simp
      then show ?thesis using a True e by (intro disjI2 exI [of _ "[]"] exI [of _ xs]) simp
    next
      case False
      with a have e: "kb0 = kb" "vb0 = vb" by auto
      then show ?thesis using a False by auto
    qed
  next
    assume "\<exists>ys zs. xs = ys @ (kb, Some vb) # zs \<and>
            (\<forall>k' v'. ?b = Some (k', v') \<longrightarrow> v' < vb) \<and>
            (\<forall>k v. (k, Some v) \<in> set ys \<longrightarrow> v < vb) \<and>
            (\<forall>k v. (k, Some v) \<in> set zs \<longrightarrow> v \<le> vb)"
    then obtain ys zs where h: "xs = ys @ (kb, Some vb) # zs"
            "\<forall>k' v'. ?b = Some (k', v') \<longrightarrow> v' < vb"
            "\<forall>k v. (k, Some v) \<in> set ys \<longrightarrow> v < vb"
            "\<forall>k v. (k, Some v) \<in> set zs \<longrightarrow> v \<le> vb" by blast
    have lt: "v < vb \<and> vb0 < vb" using h(2) by (cases "vb0 < v") auto
    have "(k, Some v) # xs = ((k, Some v) # ys) @ (kb, Some vb) # zs" using h by simp
    moreover have "\<forall>k' v'. (k', Some v') \<in> set ((k, Some v) # ys) \<longrightarrow> v' < vb"
      using h lt by auto
    moreover have "\<forall>k' v'. Some (kb0, vb0) = Some (k', v') \<longrightarrow> v' < vb" using lt by simp
    ultimately show ?thesis using h(4) by (intro disjI2 exI [of _ "(k, Some v) # ys"] exI [of _ zs]) simp
  qed
qed

lemma idxmax_split:
  assumes "idxmax_from None xs = Some (kb, vb)"
  shows "\<exists>ys zs. xs = ys @ (kb, Some vb) # zs \<and>
            (\<forall>k v. (k, Some v) \<in> set ys \<longrightarrow> v < vb) \<and>
            (\<forall>k v. (k, Some v) \<in> set zs \<longrightarrow> v \<le> vb)"
  using idxmax_from_Some [OF assms] by blast

section \<open>Properties of the sweep loader and the critical point\<close>

lemma BDP_LEVELS_eval:
  "BDP_LEVELS = [0, 250, 500, 750, 1000, 1250, 1500, 1750, 2000, 2250, 2500, 2750, 3000,
     3250, 3500, 3750, 4000, 4250, 4500, 4750, 5000]"
  by code_simp

lemma distinct_BDP_LEVELS: "distinct BDP_LEVELS"
  unfolding BDP_LEVELS_def by (simp add: distinct_map inj_on_def)

lemma sweep_level_BDP: "row \<in> set (sweep_level fs r k) \<Longrightarrow> sw_BDP row = k"
  by (auto simp: sweep_level_def sweep_row_of_def split: option.splits)

lemma filter_sweep_level:
  "filter (\<lambda>row. sw_BDP row = k) (sweep_level fs r k') = (if k' = k then sweep_level fs r k' else [])"
  by (auto simp: filter_empty_conv sweep_level_BDP intro!: filter_True)

lemma filter_concat_levels:
  "distinct ks \<Longrightarrow>
   filter (\<lambda>row. sw_BDP row = k) (concat (map (sweep_level fs r) ks)) =
     (if k \<in> set ks then sweep_level fs r k else [])"
proof (induction ks)
  case Nil
  then show ?case by simp
next
  case (Cons a ks)
  then show ?case by (auto simp: filter_sweep_level)
qed

lemma group_adoption_load_sweep:
  "group_adoption (load_sweep fs r) k =
     (if k \<in> set BDP_LEVELS then map sw_Adoption (sweep_level fs r k) else [])"
  unfolding group_adoption_def load_sweep_def
  by (simp add: filter_concat_levels [OF distinct_BDP_LEVELS])

lemma adoption_sweep_level:
  "map sw_Adoption (sweep_level fs r k) =
     (case fs r k of None \<Rightarrow> [] | Some df \<Rightarrow> map (\<lambda>row. TotalAdoption row * 100) df)"
  by (simp add: sweep_level_def sweep_row_of_def split: option.splits)

lemma levels_load_sweep:
  "set (map sw_BDP (load_sweep fs r)) = {k \<in> set BDP_LEVELS. \<exists>df. fs r k = Some df \<and> df \<noteq> []}"
proof -
  have "k \<in> set (map sw_BDP (load_sweep fs r)) \<longleftrightarrow>
        k \<in> set BDP_LEVELS \<and> (\<exists>df. fs r k = Some df \<and> df \<noteq> [])" for k
  proof
    assume "k \<in> set (map sw_BDP (load_sweep fs r))"
    then obtain row k' where h: "k' \<in> set BDP_LEVELS" "row \<in> set (sweep_level fs r k')" "sw_BDP row = k"
      by (auto simp: load_sweep_def)
    then have "k' = k" using sweep_level_BDP by blast
    with h have "k \<in> set BDP_LEVELS" "sweep_level fs r k \<noteq> []" by auto
    then show "k \<in> set BDP_LEVELS \<and> (\<exists>df. fs r k = Some df \<and> df \<noteq> [])"
      by (cases "fs r k") (auto simp: sweep_level_def)
  next
    assume a: "k \<in> set BDP_LEVELS \<and> (\<exists>df. fs r k = Some df \<and> df \<noteq> [])"
    then obtain df where df: "fs r k = Some df" "df \<noteq> []" by blast
    then obtain x xs where "df = x # xs" by (cases df) auto
    with df have "sweep_row_of k x \<in> set (sweep_level fs r k)" by (simp add: sweep_level_def)
    moreover have "sw_BDP (sweep_row_of k x) = k" by (simp add: sweep_row_of_def)
    ultimately show "k \<in> set (map sw_BDP (load_sweep fs r))"
      using a unfolding load_sweep_def by force
  qed
  then show ?thesis by blast
qed

lemma stds_entry:
  "(k, c) \<in> set (stds data) \<longleftrightarrow> k \<in> set (map sw_BDP data) \<and> c = pd_std (group_adoption data k)"
  by (auto simp: stds_def)


lemma pd_std_Some: "pd_std xs = Some s \<Longrightarrow> 2 \<le> length xs"
  by (simp add: pd_std_def split: if_splits)


lemma stds_load_sweep:
  "(k, Some s) \<in> set (stds (load_sweep fs r)) \<longleftrightarrow>
     k \<in> set BDP_LEVELS \<and> (\<exists>df. fs r k = Some df \<and> adoption_std df = Some s)"
proof
  assume "(k, Some s) \<in> set (stds (load_sweep fs r))"
  then have k: "k \<in> set (map sw_BDP (load_sweep fs r))"
    and s: "pd_std (group_adoption (load_sweep fs r) k) = Some s"
    by (simp_all only: stds_entry)
  from k obtain df where df: "k \<in> set BDP_LEVELS" "fs r k = Some df"
    unfolding levels_load_sweep by blast
  then have "group_adoption (load_sweep fs r) k = map (\<lambda>row. TotalAdoption row * 100) df"
    by (simp add: group_adoption_load_sweep adoption_sweep_level)
  with s df show "k \<in> set BDP_LEVELS \<and> (\<exists>df. fs r k = Some df \<and> adoption_std df = Some s)"
    by (simp add: adoption_std_def)
next
  assume "k \<in> set BDP_LEVELS \<and> (\<exists>df. fs r k = Some df \<and> adoption_std df = Some s)"
  then obtain df where df: "k \<in> set BDP_LEVELS" "fs r k = Some df" "adoption_std df = Some s"
    by blast
  then have "2 \<le> length df" using pd_std_Some [of "map (\<lambda>row. TotalAdoption row * 100) df" s]
    by (simp add: adoption_std_def)
  then have "df \<noteq> []" by auto
  with df have k: "k \<in> set (map sw_BDP (load_sweep fs r))"
    unfolding levels_load_sweep by blast
  have "group_adoption (load_sweep fs r) k = map (\<lambda>row. TotalAdoption row * 100) df"
    using df by (simp add: group_adoption_load_sweep adoption_sweep_level)
  then have "pd_std (group_adoption (load_sweep fs r) k) = Some s"
    using df by (simp add: adoption_std_def)
  with k show "(k, Some s) \<in> set (stds (load_sweep fs r))"
    by (simp only: stds_entry)
qed






lemma critical_loop_two:
  "critical_loop [(d1, l1), (d2, l2)] = Inr cps \<Longrightarrow>
   (\<exists>o1 o2. critical_point d1 = Inr o1 \<and> critical_point d2 = Inr o2)"
  by (auto split: sum.splits option.splits)

lemma summary_table_nonempty:
  "summary_table data_pln data_eur (k # ks) = Inr t \<Longrightarrow> data_pln \<noteq> [] \<and> data_eur \<noteq> []"
  by (auto simp: level_rows_def split: sum.splits if_splits)

lemma critical_point_two_seeds:
  assumes "critical_point (load_sweep fs g) = Inr o1" "load_sweep fs g \<noteq> []"
  shows "\<exists>k\<in>set BDP_LEVELS. \<exists>df. fs g k = Some df \<and> 2 \<le> length df"
proof -
  from assms have "idxmax (stds (load_sweep fs g)) \<noteq> None"
    by (cases "idxmax (stds (load_sweep fs g))") (auto simp: critical_point_def)
  then have "idxmax_from None (stds (load_sweep fs g)) \<noteq> None" by (simp add: idxmax_def)
  then obtain k s where "(k, Some s) \<in> set (stds (load_sweep fs g))"
    by (simp only: idxmax_from_None) blast
  then obtain df where df: "k \<in> set BDP_LEVELS" "fs g k = Some df" "adoption_std df = Some s"
    by (simp only: stds_load_sweep) blast
  from df(3) have "2 \<le> length df"
    using pd_std_Some [of "map (\<lambda>row. TotalAdoption row * 100) df" s] by (simp add: adoption_std_def)
  with df show ?thesis by blast
qed

lemma sweep_script_needs_two_seeds:
  assumes "sweep_script fs = Inr rep"
  shows "\<forall>g. \<exists>k\<in>set BDP_LEVELS. \<exists>df. fs g k = Some df \<and> 2 \<le> length df"
proof -
  from assms obtain ms t where
    loop: "critical_loop [(load_sweep fs pln, ''PLN''), (load_sweep fs eur, ''EUR'')] = Inr ms"
    and t: "summary_table (load_sweep fs pln) (load_sweep fs eur) BDP_LEVELS = Inr t"
    unfolding sweep_script_def Let_def by (auto split: sum.splits)
  from critical_loop_two [OF loop] obtain o1 o2 where
    c: "critical_point (load_sweep fs pln) = Inr o1" "critical_point (load_sweep fs eur) = Inr o2"
    by blast
  from t have ne: "load_sweep fs pln \<noteq> []" "load_sweep fs eur \<noteq> []"
    using summary_table_nonempty [of "load_sweep fs pln" "load_sweep fs eur" 0] 
    by (simp_all add: BDP_LEVELS_eval)
  show ?thesis
  proof
    fix g show "\<exists>k\<in>set BDP_LEVELS. \<exists>df. fs g k = Some df \<and> 2 \<le> length df"
      using critical_point_two_seeds c ne by (cases g) blast+
  qed
qed





text \<open>
  The condition of C5 as amended is also necessary: a run that reaches its report has
  such a level in both regimes (see \<open>sweep_script_needs_two_seeds\<close>).
\<close>

section \<open>Properties of the aggregate table\<close>

lemma upper_inj: "upper g = upper r \<longleftrightarrow> g = r"
  by (cases g; cases r) simp_all

lemma welfare_loop_acc:
  "welfare_loop fs ps acc =
     (case welfare_loop fs ps [] of Inl e \<Rightarrow> Inl e | Inr t \<Rightarrow> Inr (acc @ t))"
proof (induction ps arbitrary: acc)
  case Nil
  then show ?case by simp
next
  case (Cons p ps)
  obtain b g where p: "p = (b, g)" by (cases p)
  show ?case
  proof (cases "welfare_entry fs b g")
    case (Inl e)
    then show ?thesis by (simp add: p)
  next
    case (Inr es)
    have "welfare_loop fs (p # ps) acc = welfare_loop fs ps (acc @ es)"
      by (simp add: p Inr)
    also have "\<dots> = (case welfare_loop fs ps [] of Inl e \<Rightarrow> Inl e | Inr t \<Rightarrow> Inr ((acc @ es) @ t))"
      by (rule Cons.IH)
    finally have l: "welfare_loop fs (p # ps) acc =
      (case welfare_loop fs ps [] of Inl e \<Rightarrow> Inl e | Inr t \<Rightarrow> Inr (acc @ es @ t))"
      by (simp split: sum.splits)
    have "welfare_loop fs (p # ps) [] = welfare_loop fs ps es" by (simp add: p Inr)
    also have "\<dots> = (case welfare_loop fs ps [] of Inl e \<Rightarrow> Inl e | Inr t \<Rightarrow> Inr (es @ t))"
      by (rule Cons.IH)
    finally show ?thesis unfolding l by (simp split: sum.splits)
  qed
qed

lemma welfare_loop_Cons:
  "welfare_loop fs ((b, g) # ps) [] =
     (case welfare_entry fs b g of
        Inl e \<Rightarrow> Inl e
      | Inr es \<Rightarrow> (case welfare_loop fs ps [] of Inl e \<Rightarrow> Inl e | Inr t \<Rightarrow> Inr (es @ t)))"
proof (cases "welfare_entry fs b g")
  case (Inl e)
  then show ?thesis by simp
next
  case (Inr es)
  have "welfare_loop fs ((b, g) # ps) [] = welfare_loop fs ps es" by (simp add: Inr)
  also have "\<dots> = (case welfare_loop fs ps [] of Inl e \<Rightarrow> Inl e | Inr t \<Rightarrow> Inr (es @ t))"
    by (rule welfare_loop_acc)
  finally show ?thesis by (simp add: Inr)
qed

lemma welfare_entry_cases:
  "welfare_entry fs b g =
     (case fs g b of
        None \<Rightarrow> Inr []
      | Some df \<Rightarrow> if df = [] then Inl AttributeError
                   else Inr [summary_of b g (projr (compute_welfare df b))])"
proof (cases "fs g b")
  case None
  then show ?thesis by (simp add: welfare_entry_def load_term_def)
next
  case (Some df)
  obtain w where w: "compute_welfare df b = Inr w" "length w = length df"
    using compute_welfare_Inr by blast
  then have "w = [] \<longleftrightarrow> df = []" by auto
  with w Some show ?thesis by (simp add: welfare_entry_def load_term_def)
qed






lemma idxmax_max:
  assumes "idxmax_from None xs = Some (kb, vb)"
  shows "(kb, Some vb) \<in> set xs \<and> (\<forall>k v. (k, Some v) \<in> set xs \<longrightarrow> v \<le> vb)"
proof -
  from idxmax_split [OF assms] obtain ys zs where
    split: "xs = ys @ (kb, Some vb) # zs"
    and before: "\<forall>k v. (k, Some v) \<in> set ys \<longrightarrow> v < vb"
    and after: "\<forall>k v. (k, Some v) \<in> set zs \<longrightarrow> v \<le> vb" by blast
  have "v \<le> vb" if "(k, Some v) \<in> set xs" for k v
  proof -
    from that consider "(k, Some v) \<in> set ys" | "v = vb" | "(k, Some v) \<in> set zs"
      unfolding split by auto
    then show ?thesis using before after by cases force+
  qed
  then show ?thesis unfolding split by simp
qed

lemma mean_of_summary:
  "RealConsPc_mean (summary_of b g (projr (compute_welfare df b))) = mean_real_cons df b"
proof -
  obtain w where w: "compute_welfare df b = Inr w" using compute_welfare_Inr by blast
  then show ?thesis by (simp add: summary_of_def mean_real_cons_def)
qed

lemma mean_real_cons_defined: "df \<noteq> [] \<Longrightarrow> \<exists>m. mean_real_cons df b = Some m"
proof -
  assume ne: "df \<noteq> []"
  obtain w where w: "compute_welfare df b = Inr w" "length w = length df"
    using compute_welfare_Inr by blast
  with ne have "w \<noteq> []" by auto
  with w show ?thesis by (simp add: mean_real_cons_def pd_mean_def)
qed

lemma welfare_loop_total:
  "\<forall>(b, g)\<in>set ps. fs g b \<noteq> Some [] \<Longrightarrow> \<exists>t. welfare_loop fs ps [] = Inr t"
proof (induction ps)
  case Nil
  then show ?case by simp
next
  case (Cons p ps)
  obtain b g where p: "p = (b, g)" by (cases p)
  from Cons obtain t where t: "welfare_loop fs ps [] = Inr t" by auto
  from Cons.prems have "fs g b \<noteq> Some []" by (simp add: p)
  then have "\<exists>es. welfare_entry fs b g = Inr es"
    by (cases "fs g b") (simp_all add: welfare_entry_cases)
  then obtain es where "welfare_entry fs b g = Inr es" ..
  with t show ?case unfolding p welfare_loop_Cons by simp
qed

lemma welfare_loop_sound:
  "welfare_loop fs ps [] = Inr t \<Longrightarrow> row \<in> set t \<Longrightarrow>
   \<exists>b g df. (b, g) \<in> set ps \<and> fs g b = Some df \<and> df \<noteq> [] \<and>
            row = summary_of b g (projr (compute_welfare df b))"
proof (induction ps arbitrary: t)
  case Nil
  then show ?case by simp
next
  case (Cons p ps)
  obtain b g where p: "p = (b, g)" by (cases p)
  from Cons.prems(1) obtain es ts where
    es: "welfare_entry fs b g = Inr es" and ts: "welfare_loop fs ps [] = Inr ts"
    and t: "t = es @ ts"
    unfolding p welfare_loop_Cons by (auto split: sum.splits)
  from Cons.prems(2) t consider "row \<in> set es" | "row \<in> set ts" by auto
  then show ?case
  proof cases
    case 1
    with es have "\<exists>df. fs g b = Some df \<and> df \<noteq> [] \<and>
        row = summary_of b g (projr (compute_welfare df b))"
      by (auto simp: welfare_entry_cases split: option.splits if_splits)
    then show ?thesis unfolding p by auto
  next
    case 2
    from Cons.IH [OF ts 2] show ?thesis by auto
  qed
qed

lemma welfare_loop_complete:
  "welfare_loop fs ps [] = Inr t \<Longrightarrow> (b, g) \<in> set ps \<Longrightarrow> fs g b = Some df \<Longrightarrow>
   df \<noteq> [] \<and> summary_of b g (projr (compute_welfare df b)) \<in> set t"
proof (induction ps arbitrary: t)
  case Nil
  then show ?case by simp
next
  case (Cons p ps)
  obtain b' g' where p: "p = (b', g')" by (cases p)
  from Cons.prems(1) obtain es ts where
    es: "welfare_entry fs b' g' = Inr es" and ts: "welfare_loop fs ps [] = Inr ts"
    and t: "t = es @ ts"
    unfolding p welfare_loop_Cons by (auto split: sum.splits)
  show ?case
  proof (cases "(b, g) = (b', g')")
    case True
    with es Cons.prems(3) have "df \<noteq> [] \<and> es = [summary_of b g (projr (compute_welfare df b))]"
      by (auto simp: welfare_entry_cases split: if_splits)
    then show ?thesis using t by simp
  next
    case False
    with Cons.prems(2) have "(b, g) \<in> set ps" unfolding p by auto
    from Cons.IH [OF ts this Cons.prems(3)] show ?thesis using t by simp
  qed
qed


lemma seed_row_cons:
  "mean_real_cons [seed_row a, seed_row a'] b =
     Some ((90000 * (3000 + real_of_int b) + 10000 * real_of_int b) * 0.82 / 100000)"
proof -
  have cons: "\<exists>w. compute_row (seed_row x) b = Inr w \<and>
      real_cons_pc w = (90000 * (3000 + real_of_int b) + 10000 * real_of_int b) * 0.82 / 100000" for x
  proof -
    have u: "Unemployment (seed_row x) = 1 / 10" and mw: "MarketWage (seed_row x) = 3000"
      and pl: "PriceLevel (seed_row x) = 1"
      by (simp_all add: seed_row_def)
    have ab: "actual_bdp (seed_row x) b = real_of_int b"
      by (simp add: actual_bdp_def row_get_def isna_def seed_row_def)
    have ti: "total_income (seed_row x) b = 90000 * (3000 + real_of_int b) + 10000 * real_of_int b"
      unfolding total_income_def y_emp_def y_unemp_def counts_tenth [OF u] ab mw by simp
    show ?thesis unfolding compute_row_Inr ti pl by (simp add: MPC_def POPULATION_def)
  qed
  from cons [of a] cons [of a'] show ?thesis
    by (auto simp: mean_real_cons_def pd_mean_def)
qed

lemma fs_two_nonempty: "\<forall>g. \<forall>b\<in>set BDP_LEVELS. fs_two g b \<noteq> Some []"
  by (simp add: fs_two_def)








text \<open>
  C6. As stated, with "at least one loaded sweep level" as the only condition, the claim
  fails: a loaded file without rows gives a welfare frame without columns, the load loop
  aborts, and no optimal point is reported.
\<close>

theorem optimal_bdp_counterexample:
  "fs_empty pln 0 = Some [] \<and> 0 \<in> set BDP_LEVELS \<and>
   optimal_report fs_empty pln = Inl AttributeError"
  by (simp add: optimal_report_def wdf_def BDP_LEVELS_eval welfare_entry_cases fs_empty_def)

text \<open>
  C6, amended. When no file of a swept level is empty, the aggregate table is built, and
  for each regime with at least one loaded level the optimal point is a loaded level of
  that regime whose mean real consumption per capita is at least that of every loaded
  level of the regime.
\<close>

theorem optimal_bdp_max_mean:
  assumes nonempty: "\<forall>g. \<forall>b\<in>set BDP_LEVELS. fs g b \<noteq> Some []"
    and loaded: "\<exists>k\<in>set BDP_LEVELS. fs r k \<noteq> None"
  shows "\<exists>best dfb mb. optimal_report fs r = Inr (Some best) \<and>
           BDP best \<in> set BDP_LEVELS \<and> fs r (BDP best) = Some dfb \<and>
           mean_real_cons dfb (BDP best) = Some mb \<and> RealConsPc_mean best = Some mb \<and>
           (\<forall>k\<in>set BDP_LEVELS. \<forall>df. fs r k = Some df \<longrightarrow>
              (\<exists>m. mean_real_cons df k = Some m \<and> m \<le> mb))"
proof -
  let ?ps = "List.product BDP_LEVELS [pln, eur]"
  have "\<forall>(b, g)\<in>set ?ps. fs g b \<noteq> Some []" using nonempty by auto
  from welfare_loop_total [OF this] obtain t where t: "welfare_loop fs ?ps [] = Inr t" by blast
  let ?rows = "filter (\<lambda>row. Regime row = upper r) t"
  let ?xs = "map (\<lambda>row. (row, RealConsPc_mean row)) ?rows"
  have pair: "(k, r) \<in> set ?ps" if "k \<in> set BDP_LEVELS" for k
    using that by (cases r) auto
  have entry: "\<exists>m. mean_real_cons df k = Some m \<and>
                 (summary_of k r (projr (compute_welfare df k)), Some m) \<in> set ?xs"
    if k: "k \<in> set BDP_LEVELS" "fs r k = Some df" for k df
  proof -
    from welfare_loop_complete [OF t pair [OF k(1)] k(2)]
    have ne: "df \<noteq> []" and mem: "summary_of k r (projr (compute_welfare df k)) \<in> set t" by simp_all
    from mean_real_cons_defined [OF ne] obtain m where m: "mean_real_cons df k = Some m" by blast
    have "summary_of k r (projr (compute_welfare df k)) \<in> set ?rows"
      using mem by (simp add: summary_of_def)
    then have "(summary_of k r (projr (compute_welfare df k)), Some m) \<in> set ?xs"
      using m mean_of_summary [of k r df] by force
    with m show ?thesis by blast
  qed
  from loaded obtain k0 df0 where k0: "k0 \<in> set BDP_LEVELS" "fs r k0 = Some df0" by auto
  from entry [OF k0] obtain m0 where
    in0: "(summary_of k0 r (projr (compute_welfare df0 k0)), Some m0) \<in> set ?xs" by blast
  then have "?xs \<noteq> []" by (metis empty_iff empty_set)
  then have ne: "?rows \<noteq> []" by simp
  have "idxmax_from None ?xs \<noteq> None"
    using in0 by (simp only: idxmax_from_None) blast
  then obtain best mb where run: "idxmax_from None ?xs = Some (best, mb)" by auto
  from idxmax_max [OF run] have bin: "(best, Some mb) \<in> set ?xs"
    and mx: "\<forall>k v. (k, Some v) \<in> set ?xs \<longrightarrow> v \<le> mb" by simp_all
  from bin have brow: "best \<in> set t" "Regime best = upper r" "RealConsPc_mean best = Some mb"
    by auto
  from welfare_loop_sound [OF t brow(1)] obtain b g dfb where
    b: "(b, g) \<in> set ?ps" "fs g b = Some dfb"
       "best = summary_of b g (projr (compute_welfare dfb b))" by blast
  have bb: "BDP best = b" and "Regime best = upper g" using b(3) by (simp_all add: summary_of_def)
  with brow(2) have g: "g = r" by (simp add: upper_inj)
  have blev: "BDP best \<in> set BDP_LEVELS" using b(1) bb by auto
  have bfile: "fs r (BDP best) = Some dfb" using b(2) bb g by simp
  have bmean: "mean_real_cons dfb (BDP best) = Some mb"
    using brow(3) mean_of_summary [of b g dfb] b(3) bb by simp
  have "t \<noteq> []" using ne by auto
  then have rows: "regime_rows r t = Inr ?rows" by (simp add: regime_rows_def)
  have "optimal_bdp ?rows = Inr (Some best)"
    using ne run by (simp add: optimal_bdp_def idxmax_def)
  then have opt: "optimal_report fs r = Inr (Some best)"
    using t rows by (simp add: optimal_report_def wdf_def)
  have all: "\<forall>k\<in>set BDP_LEVELS. \<forall>df. fs r k = Some df \<longrightarrow>
              (\<exists>m. mean_real_cons df k = Some m \<and> m \<le> mb)"
    using entry mx by blast
  from opt blev bfile bmean brow(3) all show ?thesis by blast
qed

theorem optimal_bdp_max_mean_witness:
  "\<exists>best. optimal_report fs_two pln = Inr (Some best) \<and>
      BDP best = 250 \<and> RealConsPc_mean best = Some 2419"
proof -
  have loaded: "\<exists>k\<in>set BDP_LEVELS. fs_two pln k \<noteq> None"
    by (simp add: BDP_LEVELS_eval fs_two_def)
  from optimal_bdp_max_mean [OF fs_two_nonempty loaded] obtain best dfb mb where
    opt: "optimal_report fs_two pln = Inr (Some best)"
    and fl: "fs_two pln (BDP best) = Some dfb" "mean_real_cons dfb (BDP best) = Some mb"
      "RealConsPc_mean best = Some mb"
    and mx: "\<forall>k\<in>set BDP_LEVELS. \<forall>df. fs_two pln k = Some df \<longrightarrow>
              (\<exists>m. mean_real_cons df k = Some m \<and> m \<le> mb)" by blast
  have "250 \<in> set BDP_LEVELS" by (simp add: BDP_LEVELS_eval)
  with mx have "\<exists>m. mean_real_cons [seed_row 0.2, seed_row 0.2] 250 = Some m \<and> m \<le> mb"
    by (simp add: fs_two_def)
  then have le: "2419 \<le> mb" unfolding seed_row_cons by simp
  have "BDP best = 0 \<or> BDP best = 250" using fl(1) by (auto simp: fs_two_def split: if_splits)
  moreover have "BDP best \<noteq> 0"
  proof
    assume z: "BDP best = 0"
    with fl have "mean_real_cons [seed_row 0.1, seed_row 0.3] 0 = Some mb"
      by (simp add: fs_two_def)
    then have "mb = 2214" unfolding seed_row_cons by simp
    with le show False by simp
  qed
  ultimately have b: "BDP best = 250" by simp
  with fl have "mean_real_cons [seed_row 0.2, seed_row 0.2] 250 = Some mb"
    by (simp add: fs_two_def)
  then have "mb = 2419" unfolding seed_row_cons by simp
  with opt b fl(3) show ?thesis by blast
qed

section \<open>Properties of the time-series figure\<close>

lemma enumerate_BDP_SHOW: "enumerate 0 BDP_SHOW = [(0, 0), (1, 2000), (2, 3000)]"
  by (simp add: BDP_SHOW_def)

lemma enumerate_panel_metrics:
  "enumerate 0 panel_metrics = [(0, ''Inflation''), (1, ''TotalAdoption''), (2, ''Unemployment'')]"
  by (simp add: panel_metrics_def)

lemma figure1_column_col: "l \<in> set (figure1_column fs c bdp) \<Longrightarrow> panel_col l = c"
  by (auto simp: figure1_column_def split: option.splits)

lemma figure1_column_missing:
  "fs pln bdp = None \<or> fs eur bdp = None \<Longrightarrow> figure1_column fs c bdp = []"
  by (auto simp: figure1_column_def load_ts_def split: option.splits)

lemma figure1_column_present:
  assumes "fs pln bdp = Some p" "fs eur bdp = Some e" "(row_idx, m) \<in> set (enumerate 0 panel_metrics)"
  shows "\<lparr>panel_col = c, panel_row = row_idx, metric = m, line_regime = pln, line_data = p\<rparr>
           \<in> set (figure1_column fs c bdp)"
    and "\<lparr>panel_col = c, panel_row = row_idx, metric = m, line_regime = eur, line_data = e\<rparr>
           \<in> set (figure1_column fs c bdp)"
  using assms by (force simp: figure1_column_def load_ts_def)+

lemma figure1_set:
  "set (figure1 fs) =
     set (figure1_column fs 0 0) \<union> set (figure1_column fs 1 2000) \<union> set (figure1_column fs 2 3000)"
  by (auto simp: figure1_def enumerate_BDP_SHOW)

text \<open>
  C10. The PLN and the EUR time series of a displayed level are loaded in one exception
  scope: when either file is missing, no line is drawn in that level's panel column, for
  either regime; when both are present, every panel of the column carries both lines.
\<close>

theorem figure1_both_or_neither:
  assumes "(col_idx, bdp) \<in> set (enumerate 0 BDP_SHOW)"
  shows "(fs pln bdp = None \<or> fs eur bdp = None \<longrightarrow>
            (\<forall>l\<in>set (figure1 fs). panel_col l \<noteq> col_idx)) \<and>
         (\<forall>p e. fs pln bdp = Some p \<and> fs eur bdp = Some e \<longrightarrow>
            (\<forall>(row_idx, m)\<in>set (enumerate 0 panel_metrics).
               \<lparr>panel_col = col_idx, panel_row = row_idx, metric = m,
                line_regime = pln, line_data = p\<rparr> \<in> set (figure1 fs) \<and>
               \<lparr>panel_col = col_idx, panel_row = row_idx, metric = m,
                line_regime = eur, line_data = e\<rparr> \<in> set (figure1 fs)))"
proof -
  from assms consider "col_idx = 0" "bdp = 0" | "col_idx = 1" "bdp = 2000" | "col_idx = 2" "bdp = 3000"
    by (auto simp: enumerate_BDP_SHOW)
  then have mem: "set (figure1_column fs col_idx bdp) \<subseteq> set (figure1 fs)"
    by cases (auto simp: figure1_set)
  have only: "l \<in> set (figure1_column fs col_idx bdp)"
    if "l \<in> set (figure1 fs)" "panel_col l = col_idx" for l
  proof -
    from that(1) consider "l \<in> set (figure1_column fs 0 0)" | "l \<in> set (figure1_column fs 1 2000)"
      | "l \<in> set (figure1_column fs 2 3000)" by (auto simp: figure1_set)
    then show ?thesis
    proof cases
      case 1
      then have "col_idx = 0" using that(2) figure1_column_col by fastforce
      with assms 1 show ?thesis by (auto simp: enumerate_BDP_SHOW)
    next
      case 2
      then have "col_idx = 1" using that(2) figure1_column_col by fastforce
      with assms 2 show ?thesis by (auto simp: enumerate_BDP_SHOW)
    next
      case 3
      then have "col_idx = 2" using that(2) figure1_column_col by fastforce
      with assms 3 show ?thesis by (auto simp: enumerate_BDP_SHOW)
    qed
  qed
  have skip: "\<forall>l\<in>set (figure1 fs). panel_col l \<noteq> col_idx"
    if "fs pln bdp = None \<or> fs eur bdp = None"
  proof
    fix l assume l: "l \<in> set (figure1 fs)"
    show "panel_col l \<noteq> col_idx"
    proof
      assume "panel_col l = col_idx"
      with l have "l \<in> set (figure1_column fs col_idx bdp)" by (rule only)
      then show False using figure1_column_missing [of fs bdp col_idx] that by simp
    qed
  qed
  have both: "\<forall>(row_idx, m)\<in>set (enumerate 0 panel_metrics).
               \<lparr>panel_col = col_idx, panel_row = row_idx, metric = m,
                line_regime = pln, line_data = p\<rparr> \<in> set (figure1 fs) \<and>
               \<lparr>panel_col = col_idx, panel_row = row_idx, metric = m,
                line_regime = eur, line_data = e\<rparr> \<in> set (figure1 fs)"
    if "fs pln bdp = Some p \<and> fs eur bdp = Some e" for p e
    using figure1_column_present [of fs bdp p e _ _ col_idx] that mem by blast
  from skip both show ?thesis by blast
qed

theorem figure1_both_or_neither_witness:
  "fs_ts pln 2000 = Some 1 \<and> fs_ts eur 2000 = None \<and>
   1 \<notin> panel_col ` set (figure1 fs_ts) \<and>
   \<lparr>panel_col = 0, panel_row = 1, metric = ''TotalAdoption'', line_regime = eur, line_data = 2\<rparr>
     \<in> set (figure1 fs_ts)"
proof -
  have c1: "(1, 2000) \<in> set (enumerate 0 BDP_SHOW)" and c0: "(0, 0) \<in> set (enumerate 0 BDP_SHOW)"
    by (simp_all add: enumerate_BDP_SHOW)
  have m: "(1, ''TotalAdoption'') \<in> set (enumerate 0 panel_metrics)"
    by (simp add: enumerate_panel_metrics)
  have f: "fs_ts pln 2000 = Some 1" "fs_ts eur 2000 = None" "fs_ts pln 0 = Some 1" "fs_ts eur 0 = Some 2"
    by (simp_all add: fs_ts_def)
  from figure1_both_or_neither [OF c1, of fs_ts] f
  have a: "\<forall>l\<in>set (figure1 fs_ts). panel_col l \<noteq> 1" by simp
  from figure1_both_or_neither [OF c0, of fs_ts] f m
  have b: "\<lparr>panel_col = 0, panel_row = 1, metric = ''TotalAdoption'', line_regime = eur, line_data = 2\<rparr>
     \<in> set (figure1 fs_ts)" by fastforce
  from f a b show ?thesis by auto
qed

end
